theory Spec2Isabelle
  imports Main
begin

section \<open>JavaScript values and coercions\<close>

text \<open>
  A value the formatter handles: what \<^verbatim>\<open>JSON.parse\<close> returns, and \<^verbatim>\<open>undefined\<close> for a
  property that is read but absent. An object is the list of its own properties in
  enumeration order (\<^verbatim>\<open>Object.keys\<close>); the keys of an object are distinct, which a theorem
  that depends on it assumes. Numbers are the integers, printed in decimal: the version,
  level, timestamp and process id of the wire format are integers, and a number with a
  fraction or one printed with an exponent is outside the model. A string is the list of
  its characters, each below 256.
\<close>

datatype jsval =
    JUndefined
  | JNull
  | JBool bool
  | JNum int
  | JStr string
  | JArr "jsval list"
  | JObj "(string \<times> jsval) list"

text \<open>What a call can throw: the runtime's TypeError, and the exceptions of the date library.\<close>

datatype exn = TypeError | DateTimeException | IllegalArgumentException

definition bindE :: "exn + 'a \<Rightarrow> ('a \<Rightarrow> exn + 'b) \<Rightarrow> exn + 'b" where
  "bindE m f = (case m of Inl e \<Rightarrow> Inl e | Inr x \<Rightarrow> f x)"

definition LF :: char where "LF = CHR 0x0A"
definition CR :: char where "CR = CHR 0x0D"
definition DQ :: char where "DQ = CHR 0x22"
definition BSL :: char where "BSL = CHR 0x5C"

fun showNat :: "nat \<Rightarrow> string" where
  "showNat n =
     (if n < 10 then [''0123456789'' ! n]
      else showNat (n div 10) @ [''0123456789'' ! (n mod 10)])"

declare showNat.simps [simp del]

text \<open>
  \<^verbatim>\<open>Number.prototype.toString\<close> on an integer: its decimal digits. (JavaScript switches
  to an exponent from \<^verbatim>\<open>1e21\<close> on; such numbers are outside the model.)
\<close>

definition numToString :: "int \<Rightarrow> string" where
  "numToString i = (if i < 0 then CHR ''-'' # showNat (nat (- i)) else showNat (nat i))"

text \<open>Truthiness, as \<^verbatim>\<open>if (x)\<close>, \<^verbatim>\<open>x && y\<close> and \<^verbatim>\<open>x || y\<close> test it.\<close>

fun truthy :: "jsval \<Rightarrow> bool" where
  "truthy JUndefined = False"
| "truthy JNull = False"
| "truthy (JBool b) = b"
| "truthy (JNum n) = (n \<noteq> 0)"
| "truthy (JStr s) = (s \<noteq> [])"
| "truthy (JArr xs) = True"
| "truthy (JObj kvs) = True"

text \<open>
  The string a value becomes in a template literal, in \<^verbatim>\<open>+\<close> with a string and as a
  property key. An array is joined with commas (\<^verbatim>\<open>null\<close> and \<^verbatim>\<open>undefined\<close> elements are
  empty). A parsed object inherits \<^verbatim>\<open>Object.prototype.toString\<close>, unless it has an own
  property \<^verbatim>\<open>toString\<close>: that one is never callable, \<^verbatim>\<open>valueOf\<close> gives no primitive
  either, and the coercion throws a TypeError.
\<close>

fun toString :: "jsval \<Rightarrow> exn + string"
and joinElems :: "jsval list \<Rightarrow> exn + string" where
  "toString JUndefined = Inr ''undefined''"
| "toString JNull = Inr ''null''"
| "toString (JBool b) = Inr (if b then ''true'' else ''false'')"
| "toString (JNum n) = Inr (numToString n)"
| "toString (JStr s) = Inr s"
| "toString (JArr xs) = joinElems xs"
| "toString (JObj kvs) =
     (if ''toString'' \<in> set (map fst kvs) then Inl TypeError else Inr ''[object Object]'')"
| "joinElems [] = Inr []"
| "joinElems (x # xs) =
     bindE (if x = JNull \<or> x = JUndefined then Inr [] else toString x) (\<lambda>s.
       if xs = [] then Inr s else bindE (joinElems xs) (\<lambda>r. Inr (s @ '','' @ r)))"

text \<open>
  Reading an own property: \<^verbatim>\<open>log.time\<close>, \<^verbatim>\<open>log[key]\<close>. The names the formatter writes out
  (\<^verbatim>\<open>v\<close>, \<^verbatim>\<open>time\<close>, \<^verbatim>\<open>level\<close>, \<^verbatim>\<open>name\<close>, \<^verbatim>\<open>pid\<close>, \<^verbatim>\<open>hostname\<close>, \<^verbatim>\<open>type\<close>, \<^verbatim>\<open>stack\<close>) are no names of
  \<^verbatim>\<open>Object.prototype\<close>, and the keys of the loops are own keys. The one read through a
  configured name, \<^verbatim>\<open>log[messageKey]\<close>, also looks at what the object inherits.
\<close>

fun getProp :: "jsval \<Rightarrow> string \<Rightarrow> jsval" where
  "getProp (JObj kvs) k = (case map_of kvs k of Some v \<Rightarrow> v | None \<Rightarrow> JUndefined)"
| "getProp v k = JUndefined"

text \<open>
  What a parsed object inherits from \<^verbatim>\<open>Object.prototype\<close>, each member with the text it
  becomes in a string: a method prints as native code, \<^verbatim>\<open>__proto__\<close> is the prototype
  object itself. Every member is truthy.
\<close>

definition objectPrototype :: "string \<Rightarrow> string option" where
  "objectPrototype k =
     (if k = ''constructor'' then Some ''function Object() { [native code] }''
      else if k \<in> set [''__defineGetter__'', ''__defineSetter__'', ''hasOwnProperty'',
                        ''__lookupGetter__'', ''__lookupSetter__'', ''isPrototypeOf'',
                        ''propertyIsEnumerable'', ''toString'', ''valueOf'', ''toLocaleString'']
        then Some (''function '' @ k @ ''() { [native code] }'')
      else if k = ''__proto__'' then Some ''[object Object]''
      else None)"

text \<open>\<^verbatim>\<open>log[k]\<close> where the object has no own property \<^verbatim>\<open>k\<close>: the inherited member, if any.\<close>

fun inherited :: "jsval \<Rightarrow> string \<Rightarrow> string option" where
  "inherited (JObj kvs) k = (if k \<in> set (map fst kvs) then None else objectPrototype k)"
| "inherited v k = None"

text \<open>Assignment to a property: an existing key keeps its place, a new key comes last.\<close>

fun setKey :: "(string \<times> jsval) list \<Rightarrow> string \<Rightarrow> jsval \<Rightarrow> (string \<times> jsval) list" where
  "setKey [] k v = [(k, v)]"
| "setKey (p # kvs) k v = (if fst p = k then (k, v) # kvs else p # setKey kvs k v)"

fun setProp :: "jsval \<Rightarrow> string \<Rightarrow> jsval \<Rightarrow> jsval" where
  "setProp (JObj kvs) k v = JObj (setKey kvs k v)"
| "setProp w k v = w"

text \<open>
  The method call \<^verbatim>\<open>log.hasOwnProperty(k)\<close>. The method is looked up on the value
  first: an object with an own property \<^verbatim>\<open>hasOwnProperty\<close> shadows the inherited
  method with a parsed value, which is not callable.
\<close>

fun hasOwnProperty :: "jsval \<Rightarrow> string \<Rightarrow> exn + bool" where
  "hasOwnProperty (JObj kvs) k =
     (if ''hasOwnProperty'' \<in> set (map fst kvs) then Inl TypeError
      else Inr (k \<in> set (map fst kvs)))"
| "hasOwnProperty (JArr xs) k = Inr (k = ''length'' \<or> k \<in> set (map showNat [0..<length xs]))"
| "hasOwnProperty (JStr s) k = Inr (k = ''length'' \<or> k \<in> set (map showNat [0..<length s]))"
| "hasOwnProperty (JNum n) k = Inr False"
| "hasOwnProperty (JBool b) k = Inr False"
| "hasOwnProperty JNull k = Inl TypeError"
| "hasOwnProperty JUndefined k = Inl TypeError"

text \<open>\<^verbatim>\<open>x instanceof Object\<close> on a parsed value.\<close>

fun instanceofObject :: "jsval \<Rightarrow> bool" where
  "instanceofObject (JArr xs) = True"
| "instanceofObject (JObj kvs) = True"
| "instanceofObject v = False"

text \<open>\<^verbatim>\<open>Object.keys(value)\<close>, each key with \<^verbatim>\<open>value[key]\<close>.\<close>

fun objectEntries :: "jsval \<Rightarrow> exn + (string \<times> jsval) list" where
  "objectEntries (JObj kvs) = Inr kvs"
| "objectEntries (JArr xs) = Inr (zip (map showNat [0..<length xs]) xs)"
| "objectEntries (JStr s) = Inr (zip (map showNat [0..<length s]) (map (\<lambda>c. JStr [c]) s))"
| "objectEntries (JNum n) = Inr []"
| "objectEntries (JBool b) = Inr []"
| "objectEntries JNull = Inl TypeError"
| "objectEntries JUndefined = Inl TypeError"

section \<open>String helpers of the runtime\<close>

text \<open>\<^verbatim>\<open>lines.join(sep)\<close>.\<close>

fun join :: "string \<Rightarrow> string list \<Rightarrow> string" where
  "join sep [] = []"
| "join sep [x] = x"
| "join sep (x # y # ys) = x @ sep @ join sep (y # ys)"

text \<open>\<^verbatim>\<open>s.split(c)\<close> on a one-character separator.\<close>

fun splitChar :: "char \<Rightarrow> string \<Rightarrow> string list" where
  "splitChar sep [] = [[]]"
| "splitChar sep (c # cs) =
     (if c = sep then [] # splitChar sep cs
      else (case splitChar sep cs of [] \<Rightarrow> [[c]] | l # ls \<Rightarrow> (c # l) # ls))"

text \<open>\<^verbatim>\<open>s.split(/\r?\n/)\<close>.\<close>

fun splitLines :: "string \<Rightarrow> string list" where
  "splitLines [] = [[]]"
| "splitLines [c] = (if c = LF then [[], []] else [[c]])"
| "splitLines (c # d # cs) =
     (if c = CR \<and> d = LF then [] # splitLines cs
      else if c = LF then [] # splitLines (d # cs)
      else (case splitLines (d # cs) of [] \<Rightarrow> [[c]] | l # ls \<Rightarrow> (c # l) # ls))"

text \<open>The class \<^verbatim>\<open>\s\<close> of a regular expression, on characters below 256.\<close>

definition isSpace :: "char \<Rightarrow> bool" where
  "isSpace c = (c \<in> set [CHR 0x09, CHR 0x0A, CHR 0x0B, CHR 0x0C, CHR 0x0D, CHR 0x20, CHR 0xA0])"

text \<open>What \<^verbatim>\<open>.\<close> refuses to match.\<close>

definition isLineTerminator :: "char \<Rightarrow> bool" where
  "isLineTerminator c = (c = LF \<or> c = CR)"

definition startsWith :: "string \<Rightarrow> string \<Rightarrow> bool" where
  "startsWith s p = (take (length p) s = p)"

section \<open>Configuration and collaborators\<close>

record options =
  colorize :: bool
  crlf :: bool
  dateFormat :: string
  errorLikeObjectKeys :: "string list"
  errorProps :: string
  levelFirst :: bool
  localTime :: bool
  messageKey :: string
  translateTime :: bool

definition defaultOptions :: options where
  "defaultOptions =
     \<lparr> colorize = False, crlf = False, dateFormat = ''yyyy-MM-dd HH:mm:ss.SSS Z'',
       errorLikeObjectKeys = [''err'', ''error''], errorProps = [], levelFirst = False,
       localTime = False, messageKey = ''msg'', translateTime = False \<rparr>"

datatype zone = SYSTEM | UTC

datatype style = white | bgRed | red | yellow | green | blue | grey

text \<open>
  The libraries the formatter calls, as parameters: the parser (\<^verbatim>\<open>None\<close> when it reports
  an error), the four calls of the date library, each of which may throw, and the
  styling functions of the colour library.
\<close>

record ('i, 'z, 'f) collaborators =
  jsonParser :: "string \<Rightarrow> jsval option"
  ofEpochMilli :: "jsval \<Rightarrow> exn + 'i"
  ofInstant :: "'i \<Rightarrow> zone \<Rightarrow> exn + 'z"
  ofPattern :: "string \<Rightarrow> exn + 'f"
  format :: "'f \<Rightarrow> 'z \<Rightarrow> exn + string"
  chalk :: "style \<Rightarrow> string \<Rightarrow> string"

section \<open>The formatter\<close>

definition levels :: "(string \<times> string) list" where
  "levels =
     [(''default'', ''USERLVL''), (''60'', ''FATAL''), (''50'', ''ERROR''), (''40'', ''WARN''),
      (''30'', ''INFO''), (''20'', ''DEBUG''), (''10'', ''TRACE'')]"

definition isPinoLog :: "jsval \<Rightarrow> exn + bool" where
  "isPinoLog log =
     (if \<not> truthy log then Inr False
      else bindE (hasOwnProperty log ''v'') (\<lambda>own. Inr (own \<and> getProp log ''v'' = JNum 1)))"

definition formatTime ::
  "('i, 'z, 'f) collaborators \<Rightarrow> jsval \<Rightarrow> string \<Rightarrow> bool \<Rightarrow> exn + jsval" where
  "formatTime lib epoch formatString localTime' =
     bindE (ofEpochMilli lib epoch) (\<lambda>instant.
     bindE (ofInstant lib instant (if localTime' then SYSTEM else UTC)) (\<lambda>zonedDateTime.
     bindE (ofPattern lib formatString) (\<lambda>formatter.
       (case format lib formatter zonedDateTime of
          Inr s \<Rightarrow> Inr (JStr s)
        | Inl e \<Rightarrow> Inr epoch))))"

definition nocolor :: "string \<Rightarrow> string" where
  "nocolor input = input"

definition EOL :: "options \<Rightarrow> string" where
  "EOL opts = (if crlf opts then [CR, LF] else [LF])"

definition IDENT :: string where
  "IDENT = ''    ''"

definition color :: "('i, 'z, 'f) collaborators \<Rightarrow> options \<Rightarrow> (string \<times> (string \<Rightarrow> string)) list" where
  "color lib opts =
     (if colorize opts
      then [(''default'', chalk lib white), (''60'', chalk lib bgRed), (''50'', chalk lib red),
            (''40'', chalk lib yellow), (''30'', chalk lib green), (''20'', chalk lib blue),
            (''10'', chalk lib grey)]
      else [(''default'', nocolor), (''60'', nocolor), (''50'', nocolor), (''40'', nocolor),
            (''30'', nocolor), (''20'', nocolor), (''10'', nocolor)])"

definition standardKeys :: "string list" where
  "standardKeys = [''pid'', ''hostname'', ''name'', ''level'', ''time'', ''v'']"

text \<open>\<^verbatim>\<open>joinLinesWithIndentation\<close>: a value that is not a string has no \<^verbatim>\<open>split\<close>.\<close>

fun joinLinesWithIndentation :: "string \<Rightarrow> jsval \<Rightarrow> exn + string" where
  "joinLinesWithIndentation eol (JStr s) =
     (case splitLines s of
        [] \<Rightarrow> Inr []
      | l # ls \<Rightarrow> Inr (join eol (l # map (\<lambda>x. IDENT @ x) ls)))"
| "joinLinesWithIndentation eol v = Inl TypeError"

subsection \<open>\<^verbatim>\<open>JSON.stringify(value, null, 2)\<close>\<close>

definition hexDigit :: "nat \<Rightarrow> char" where
  "hexDigit n = ''0123456789abcdef'' ! n"

definition quoteChar :: "char \<Rightarrow> string" where
  "quoteChar c =
     (if c = CHR 0x08 then [BSL, CHR ''b'']
      else if c = CHR 0x09 then [BSL, CHR ''t'']
      else if c = LF then [BSL, CHR ''n'']
      else if c = CHR 0x0C then [BSL, CHR ''f'']
      else if c = CR then [BSL, CHR ''r'']
      else if c = DQ then [BSL, DQ]
      else if c = BSL then [BSL, BSL]
      else if (of_char c :: nat) < 32
        then [BSL, CHR ''u'', CHR ''0'', CHR ''0'',
              hexDigit ((of_char c :: nat) div 16), hexDigit ((of_char c :: nat) mod 16)]
      else [c])"

definition quoteJSONString :: "string \<Rightarrow> string" where
  "quoteJSONString s = [DQ] @ concat (map quoteChar s) @ [DQ]"

definition gap :: string where
  "gap = ''  ''"

text \<open>
  \<^verbatim>\<open>serialize indent v\<close> is the text of \<^verbatim>\<open>v\<close> at the given indentation, \<^verbatim>\<open>None\<close> for
  \<^verbatim>\<open>undefined\<close>: an undefined element of an array is written \<^verbatim>\<open>null\<close>, an undefined
  member of an object is left out.
\<close>

fun serialize :: "string \<Rightarrow> jsval \<Rightarrow> string option"
and serializeElems :: "string \<Rightarrow> jsval list \<Rightarrow> string list"
and serializeMembers :: "string \<Rightarrow> (string \<times> jsval) list \<Rightarrow> string list" where
  "serialize stepback JUndefined = None"
| "serialize stepback JNull = Some ''null''"
| "serialize stepback (JBool b) = Some (if b then ''true'' else ''false'')"
| "serialize stepback (JNum n) = Some (numToString n)"
| "serialize stepback (JStr s) = Some (quoteJSONString s)"
| "serialize stepback (JArr xs) =
     (let indent = stepback @ gap; partial = serializeElems indent xs
      in Some (if partial = [] then ''[]''
               else ''['' @ [LF] @ indent @ join ('','' @ [LF] @ indent) partial
                    @ [LF] @ stepback @ '']''))"
| "serialize stepback (JObj kvs) =
     (let indent = stepback @ gap; partial = serializeMembers indent kvs
      in Some (if partial = [] then ''{}''
               else ''{'' @ [LF] @ indent @ join ('','' @ [LF] @ indent) partial
                    @ [LF] @ stepback @ ''}''))"
| "serializeElems indent [] = []"
| "serializeElems indent (x # xs) =
     (case serialize indent x of None \<Rightarrow> ''null'' | Some s \<Rightarrow> s) # serializeElems indent xs"
| "serializeMembers indent [] = []"
| "serializeMembers indent (p # kvs) =
     (case serialize indent (snd p) of
        None \<Rightarrow> serializeMembers indent kvs
      | Some s \<Rightarrow> (quoteJSONString (fst p) @ '': '' @ s) # serializeMembers indent kvs)"

definition JSON_stringify :: "jsval \<Rightarrow> jsval" where
  "JSON_stringify v = (case serialize [] v of None \<Rightarrow> JUndefined | Some s \<Rightarrow> JStr s)"

subsection \<open>The regular expressions of \<^verbatim>\<open>filterObjects\<close>\<close>

text \<open>\<^verbatim>\<open>/^\s*"stack"/.test(line)\<close>\<close>

definition stackTest :: "string \<Rightarrow> bool" where
  "stackTest line = startsWith (dropWhile isSpace line) ([DQ] @ ''stack'' @ [DQ])"

text \<open>
  \<^verbatim>\<open>/^(\s*"stack":)\s*"(.*)",?$/.exec(line)\<close>: the two groups of the match. The greedy
  \<^verbatim>\<open>.*\<close> ends at the last character before a closing quote that ends the line, alone or
  followed by one comma, and crosses no line terminator.
\<close>

definition stackExec :: "string \<Rightarrow> (string \<times> string) option" where
  "stackExec line =
     (let ws = takeWhile isSpace line; r1 = dropWhile isSpace line in
      if startsWith r1 ([DQ] @ ''stack'' @ [DQ] @ '':'') then
        (let r2 = dropWhile isSpace (drop 8 r1) in
         if startsWith r2 [DQ] then
           (let r3 = drop 1 r2; n = length r3 in
            if 1 \<le> n \<and> drop (n - 1) r3 = [DQ] \<and> \<not> list_ex isLineTerminator (take (n - 1) r3)
              then Some (ws @ [DQ] @ ''stack'' @ [DQ] @ '':'', take (n - 1) r3)
            else if 2 \<le> n \<and> drop (n - 2) r3 = [DQ] @ '','' \<and> \<not> list_ex isLineTerminator (take (n - 2) r3)
              then Some (ws @ [DQ] @ ''stack'' @ [DQ] @ '':'', take (n - 2) r3)
            else None)
         else None)
      else None)"

text \<open>\<^verbatim>\<open>s.replace(/\\n/g, rep)\<close>: every backslash followed by \<^verbatim>\<open>n\<close>.\<close>

fun replaceBackslashN :: "string \<Rightarrow> string \<Rightarrow> string" where
  "replaceBackslashN rep [] = []"
| "replaceBackslashN rep [c] = [c]"
| "replaceBackslashN rep (c # d # cs) =
     (if c = BSL \<and> d = CHR ''n'' then rep @ replaceBackslashN rep cs
      else c # replaceBackslashN rep (d # cs))"

subsection \<open>\<^verbatim>\<open>filterObjects\<close>\<close>

text \<open>
  The inner loop over \<^verbatim>\<open>arrayOfLines\<close>, from index \<^verbatim>\<open>j\<close> on: a line that looks like a
  \<^verbatim>\<open>"stack"\<close> member is rewritten when the second expression matches and dropped when
  it does not.
\<close>

fun stackLoop :: "string list \<Rightarrow> nat \<Rightarrow> string \<Rightarrow> string" where
  "stackLoop [] j result = result"
| "stackLoop (line # arrayOfLines) j result =
     stackLoop arrayOfLines (j + 1)
       ((if j \<noteq> 0 then result @ [LF] else result) @
        (if stackTest line then
           (case stackExec line of
              Some matches \<Rightarrow>
                (let indentSize = length (takeWhile isSpace line) + 4;
                     indentation = replicate indentSize CHR '' ''
                 in fst matches @ [LF] @ indentation @
                    replaceBackslashN ([LF] @ indentation) (snd matches))
            | None \<Rightarrow> [])
         else line))"

text \<open>
  One round of the loop over the keys (lines 198 to 227): \<^verbatim>\<open>result\<close> before the round,
  \<^verbatim>\<open>result\<close> after it. The test for an error-like key comes first.
\<close>

definition filterStep ::
  "string \<Rightarrow> string list \<Rightarrow> string list \<Rightarrow> string \<times> jsval \<Rightarrow> string \<Rightarrow> exn + string" where
  "filterStep eol errorLikeObjectKeys' filteredKeys p result =
     (if fst p \<in> set errorLikeObjectKeys' then
        bindE (joinLinesWithIndentation eol (JSON_stringify (snd p))) (\<lambda>s.
          Inr (stackLoop (splitChar LF (IDENT @ fst p @ '': '' @ s @ eol)) 0 result))
      else if fst p \<notin> set filteredKeys then
        bindE (joinLinesWithIndentation eol (JSON_stringify (snd p))) (\<lambda>s.
          Inr (result @ IDENT @ fst p @ '': '' @ s @ eol))
      else Inr result)"

fun filterLoop ::
  "string \<Rightarrow> string list \<Rightarrow> string list \<Rightarrow> (string \<times> jsval) list \<Rightarrow> string \<Rightarrow> exn + string" where
  "filterLoop eol errorLikeObjectKeys' filteredKeys [] result = Inr result"
| "filterLoop eol errorLikeObjectKeys' filteredKeys (p # keys) result =
     bindE (filterStep eol errorLikeObjectKeys' filteredKeys p result)
       (filterLoop eol errorLikeObjectKeys' filteredKeys keys)"

definition filterObjects ::
  "string \<Rightarrow> jsval \<Rightarrow> string \<Rightarrow> string list \<Rightarrow> bool \<Rightarrow> exn + string" where
  "filterObjects eol value messageKey' errorLikeObjectKeys' excludeStandardKeys =
     bindE (objectEntries value) (\<lambda>keys.
       filterLoop eol errorLikeObjectKeys'
         ([messageKey'] @ (if excludeStandardKeys then standardKeys else [])) keys [])"

subsection \<open>\<^verbatim>\<open>pretty\<close>\<close>

text \<open>Lines 99 to 101: the timestamp is replaced in the record itself.\<close>

definition translate :: "('i, 'z, 'f) collaborators \<Rightarrow> options \<Rightarrow> jsval \<Rightarrow> exn + jsval" where
  "translate lib opts log =
     (if translateTime opts
      then bindE (formatTime lib (getProp log ''time'') (dateFormat opts) (localTime opts))
             (\<lambda>t. Inr (setProp log ''time'' t))
      else Inr log)"

text \<open>Lines 105 to 107: the level is used as a property key of both tables.\<close>

definition coloredLevel :: "('i, 'z, 'f) collaborators \<Rightarrow> options \<Rightarrow> jsval \<Rightarrow> exn + string" where
  "coloredLevel lib opts log =
     bindE (toString (getProp log ''level'')) (\<lambda>key.
       (case map_of levels key of
          Some label \<Rightarrow>
            (case map_of (color lib opts) key of
               Some style \<Rightarrow> Inr (style label)
             | None \<Rightarrow> Inl TypeError)
        | None \<Rightarrow>
            (case (map_of (color lib opts) ''default'', map_of levels ''default'') of
               (Some style, Some label) \<Rightarrow> Inr (style label)
             | _ \<Rightarrow> Inl TypeError)))"

text \<open>Lines 114 to 132: what the identity block appends to the line.\<close>

definition identity :: "jsval \<Rightarrow> exn + string" where
  "identity log =
     (let name = getProp log ''name''; pid = getProp log ''pid'';
          hostname = getProp log ''hostname''
      in if truthy name \<or> truthy pid \<or> truthy hostname then
           bindE (if truthy name then toString name else Inr []) (\<lambda>n.
           bindE (if truthy name \<and> truthy pid then bindE (toString pid) (\<lambda>p. Inr (''/'' @ p))
                  else if truthy pid then toString pid
                  else Inr []) (\<lambda>p.
           bindE (if truthy hostname then bindE (toString hostname) (\<lambda>h. Inr ('' on '' @ h))
                  else Inr []) (\<lambda>h.
             Inr ('' ('' @ n @ p @ h @ '')''))))
         else Inr [])"

text \<open>
  Lines 136 to 138. A message key that names an inherited member and no own property
  reads that member, which is truthy and is appended as its text.
\<close>

definition message :: "options \<Rightarrow> jsval \<Rightarrow> exn + string" where
  "message opts log =
     (case inherited log (messageKey opts) of
        Some text \<Rightarrow> Inr text
      | None \<Rightarrow>
          (if truthy (getProp log (messageKey opts)) then toString (getProp log (messageKey opts))
           else Inr []))"

text \<open>Lines 103 to 140: the first line of the output, terminator included.\<close>

definition header :: "('i, 'z, 'f) collaborators \<Rightarrow> options \<Rightarrow> jsval \<Rightarrow> exn + string" where
  "header lib opts log =
     bindE (toString (getProp log ''time'')) (\<lambda>time.
     bindE (coloredLevel lib opts log) (\<lambda>coloredLevel'.
     bindE (identity log) (\<lambda>ident.
     bindE (message opts log) (\<lambda>msg.
       Inr ((if levelFirst opts then coloredLevel' @ '' '' @ ''['' @ time @ '']''
             else ''['' @ time @ '']'' @ '' '' @ coloredLevel')
            @ ident @ '': '' @ msg @ EOL opts)))))"

text \<open>One round of the loop over \<^verbatim>\<open>propsForPrint\<close> (lines 160 to 168).\<close>

definition propsStep :: "string \<Rightarrow> string list \<Rightarrow> jsval \<Rightarrow> string \<Rightarrow> string \<Rightarrow> exn + string" where
  "propsStep eol errorLikeObjectKeys' log key line =
     bindE (hasOwnProperty log key) (\<lambda>own.
       if \<not> own then Inr line
       else if instanceofObject (getProp log key) then
         bindE (filterObjects eol (getProp log key) [] errorLikeObjectKeys' False) (\<lambda>s.
           Inr (line @ key @ '': {'' @ eol @ s @ ''}'' @ eol))
       else
         bindE (toString (getProp log key)) (\<lambda>s. Inr (line @ key @ '': '' @ s @ eol)))"

fun propsLoop :: "string \<Rightarrow> string list \<Rightarrow> jsval \<Rightarrow> string list \<Rightarrow> string \<Rightarrow> exn + string" where
  "propsLoop eol errorLikeObjectKeys' log [] line = Inr line"
| "propsLoop eol errorLikeObjectKeys' log (key # propsForPrint) line =
     bindE (propsStep eol errorLikeObjectKeys' log key line)
       (propsLoop eol errorLikeObjectKeys' log propsForPrint)"

text \<open>Lines 143 to 170: the error branch, from the line so far.\<close>

definition errorBranch :: "options \<Rightarrow> jsval \<Rightarrow> string \<Rightarrow> exn + string" where
  "errorBranch opts log line =
     bindE (joinLinesWithIndentation (EOL opts) (getProp log ''stack'')) (\<lambda>stack.
       (let errorProps' = splitChar CHR '','' (errorProps opts);
            line' = line @ IDENT @ stack @ EOL opts
        in if errorProps' \<noteq> [] then
             (let excludedProps = standardKeys @ [messageKey opts, ''type'', ''stack''] in
              bindE (if hd errorProps' = ''*''
                     then bindE (objectEntries log) (\<lambda>keys.
                            Inr (filter (\<lambda>prop. prop \<notin> set excludedProps) (map fst keys)))
                     else Inr (filter (\<lambda>prop. prop \<notin> set excludedProps) errorProps'))
                (\<lambda>propsForPrint.
                   propsLoop (EOL opts) (errorLikeObjectKeys opts) log propsForPrint line'))
           else Inr line'))"

text \<open>Lines 142 to 173: everything after the first line.\<close>

definition body :: "options \<Rightarrow> jsval \<Rightarrow> string \<Rightarrow> exn + string" where
  "body opts log line =
     (if getProp log ''type'' = JStr ''Error'' then errorBranch opts log line
      else bindE (filterObjects (EOL opts) log (messageKey opts) (errorLikeObjectKeys opts) True)
             (\<lambda>s. Inr (line @ s)))"

text \<open>The function \<^verbatim>\<open>prettyFactory(options)\<close> returns, applied to one line.\<close>

definition pretty :: "('i, 'z, 'f) collaborators \<Rightarrow> options \<Rightarrow> string \<Rightarrow> exn + string" where
  "pretty lib opts inputLine =
     (case jsonParser lib inputLine of
        None \<Rightarrow> Inr (inputLine @ EOL opts)
      | Some parsed \<Rightarrow>
          bindE (isPinoLog parsed) (\<lambda>recognized.
            if \<not> recognized then Inr (inputLine @ EOL opts)
            else
              bindE (translate lib opts parsed) (\<lambda>log.
              bindE (header lib opts log) (\<lambda>line. body opts log line))))"

section \<open>Stand-ins for the libraries\<close>

text \<open>
  Collaborators to run the formatter with on sample lines: a parser that knows the lines
  of a table, a date library whose calls all succeed, and a styling function that puts
  the text in angle brackets. A sample that needs a failing call overrides the field.
\<close>

definition stubLib :: "(string \<times> jsval) list \<Rightarrow> (jsval, jsval \<times> zone, string) collaborators" where
  "stubLib table =
     \<lparr> jsonParser = map_of table,
       ofEpochMilli = (\<lambda>epoch. Inr epoch),
       ofInstant = (\<lambda>instant z. Inr (instant, z)),
       ofPattern = (\<lambda>pattern. Inr pattern),
       format = (\<lambda>formatter zonedDateTime. Inr formatter),
       chalk = (\<lambda>s input. ''<'' @ input @ ''>'') \<rparr>"

text \<open>Sample lines, each with the value \<^verbatim>\<open>JSON.parse\<close> gives for it.\<close>

definition infoLine :: string where
  \<open>infoLine = ''{"v":1,"level":30,"time":1500000000000,"msg":"hello","pid":1,"hostname":"h"}''\<close>

definition infoRecord :: jsval where
  "infoRecord =
     JObj [(''v'', JNum 1), (''level'', JNum 30), (''time'', JNum 1500000000000),
           (''msg'', JStr ''hello''), (''pid'', JNum 1), (''hostname'', JStr ''h'')]"

definition noTimeLine :: string where
  \<open>noTimeLine = ''{"v":1,"level":30,"msg":"hello"}''\<close>

definition noTimeRecord :: jsval where
  "noTimeRecord = JObj [(''v'', JNum 1), (''level'', JNum 30), (''msg'', JStr ''hello'')]"

definition pidZeroLine :: string where
  \<open>pidZeroLine = ''{"v":1,"level":30,"time":1,"pid":0}''\<close>

definition pidZeroRecord :: jsval where
  "pidZeroRecord = JObj [(''v'', JNum 1), (''level'', JNum 30), (''time'', JNum 1), (''pid'', JNum 0)]"

definition errorLine :: string where
  \<open>errorLine = ''{"v":1,"level":50,"type":"Error","msg":"boom","stack":"Error: boom''
                 @ [BSL] @ ''n    at f (x.js:1:1)"}''\<close>

definition errorRecord :: jsval where
  "errorRecord =
     JObj [(''v'', JNum 1), (''level'', JNum 50), (''type'', JStr ''Error''),
           (''msg'', JStr ''boom''),
           (''stack'', JStr (''Error: boom'' @ [LF] @ ''    at f (x.js:1:1)''))]"

definition extraLine :: string where
  \<open>extraLine = ''{"v":1,"level":30,"msg":"hello","extra":{"a":1}}''\<close>

definition extraRecord :: jsval where
  "extraRecord =
     JObj [(''v'', JNum 1), (''level'', JNum 30), (''msg'', JStr ''hello''),
           (''extra'', JObj [(''a'', JNum 1)])]"



section \<open>Auxiliary lemmas\<close>

lemma bindE_Inl [simp]: "bindE (Inl e) f = Inl e"
  by (simp add: bindE_def)

lemma bindE_Inr [simp]: "bindE (Inr x) f = f x"
  by (simp add: bindE_def)

lemma bindE_eq_Inr: "bindE m f = Inr y \<longleftrightarrow> (\<exists>x. m = Inr x \<and> f x = Inr y)"
  by (cases m) simp_all

lemma bindE_eq_Inl: "bindE m f = Inl e \<longleftrightarrow> (m = Inl e \<or> (\<exists>x. m = Inr x \<and> f x = Inl e))"
  by (cases m) simp_all

lemma bindE_assoc: "bindE (bindE m f) g = bindE m (\<lambda>x. bindE (f x) g)"
  by (cases m) simp_all

lemma bindE_return [simp]: "bindE m Inr = m"
  by (cases m) simp_all

lemma stackLoop_append: "stackLoop ls j result = result @ stackLoop ls j []"
proof (induction ls arbitrary: j result)
  case Nil
  show ?case by simp
next
  case (Cons l ls)
  have "stackLoop (l # ls) j result = stackLoop ls (j + 1) (result @ stackLoop [l] j [])"
    by simp
  also have "\<dots> = result @ stackLoop [l] j [] @ stackLoop ls (j + 1) []"
    by (subst Cons.IH) simp
  also have "stackLoop [l] j [] @ stackLoop ls (j + 1) [] = stackLoop (l # ls) j []"
    by (subst (2) stackLoop.simps, subst Cons.IH) simp
  finally show ?case .
qed

lemma filterStep_append:
  "filterStep eol elk fk p result = bindE (filterStep eol elk fk p []) (\<lambda>s. Inr (result @ s))"
proof -
  have "stackLoop ls 0 result = result @ stackLoop ls 0 []" for ls
    by (rule stackLoop_append)
  then show ?thesis
    by (cases "joinLinesWithIndentation eol (JSON_stringify (snd p))")
       (simp_all add: filterStep_def)
qed

lemma filterLoop_append:
  "filterLoop eol elk fk kvs result = bindE (filterLoop eol elk fk kvs []) (\<lambda>s. Inr (result @ s))"
proof (induction kvs arbitrary: result)
  case Nil
  show ?case by simp
next
  case (Cons p kvs)
  show ?case
  proof (cases "filterStep eol elk fk p []")
    case (Inl e)
    then show ?thesis
      by (simp add: filterStep_append [of _ _ _ _ result])
  next
    case (Inr s)
    then show ?thesis
      by (simp add: filterStep_append [of _ _ _ _ result] Cons.IH [of "result @ s"] Cons.IH [of s]
                    bindE_assoc)
  qed
qed

lemma propsStep_append:
  "propsStep eol elk log key line = bindE (propsStep eol elk log key []) (\<lambda>s. Inr (line @ s))"
  by (cases "hasOwnProperty log key"; cases "filterObjects eol (getProp log key) [] elk False";
      cases "toString (getProp log key)")
     (simp_all add: propsStep_def)

lemma propsLoop_append:
  "propsLoop eol elk log ks line = bindE (propsLoop eol elk log ks []) (\<lambda>s. Inr (line @ s))"
proof (induction ks arbitrary: line)
  case Nil
  show ?case by simp
next
  case (Cons k ks)
  show ?case
  proof (cases "propsStep eol elk log k []")
    case (Inl e)
    then show ?thesis
      by (simp add: propsStep_append [of _ _ _ _ line])
  next
    case (Inr s)
    then show ?thesis
      by (simp add: propsStep_append [of _ _ _ _ line] Cons.IH [of "line @ s"] Cons.IH [of s]
                    bindE_assoc)
  qed
qed

lemma errorBranch_append:
  "errorBranch opts log line = bindE (errorBranch opts log []) (\<lambda>s. Inr (line @ s))"
proof (cases "joinLinesWithIndentation (EOL opts) (getProp log ''stack'')")
  case (Inl e)
  then show ?thesis by (simp add: errorBranch_def)
next
  case (Inr st)
  show ?thesis
  proof (cases "objectEntries log")
    case (Inl e)
    with Inr show ?thesis
      by (simp add: errorBranch_def Let_def
            propsLoop_append [of _ _ _ _ "line @ IDENT @ st @ EOL opts"]
            propsLoop_append [of _ _ _ _ "IDENT @ st @ EOL opts"] bindE_assoc)
  next
    case (Inr keys)
    with \<open>joinLinesWithIndentation (EOL opts) (getProp log ''stack'') = Inr st\<close> show ?thesis
      by (simp add: errorBranch_def Let_def
            propsLoop_append [of _ _ _ _ "line @ IDENT @ st @ EOL opts"]
            propsLoop_append [of _ _ _ _ "IDENT @ st @ EOL opts"] bindE_assoc)
  qed
qed

lemma body_append: "body opts log line = bindE (body opts log []) (\<lambda>s. Inr (line @ s))"
  by (simp add: body_def errorBranch_append [of _ _ line] bindE_assoc)

lemma isPinoLog_True:
  assumes "isPinoLog v = Inr True"
  shows "\<exists>kvs. v = JObj kvs \<and> ''hasOwnProperty'' \<notin> set (map fst kvs)
           \<and> ''v'' \<in> set (map fst kvs) \<and> getProp v ''v'' = JNum 1"
  using assms
  by (cases v) (auto simp: isPinoLog_def bindE_eq_Inr split: if_splits)

lemma isPinoLog_JObj:
  "isPinoLog (JObj kvs) =
     (if ''hasOwnProperty'' \<in> set (map fst kvs) then Inl TypeError
      else Inr (''v'' \<in> set (map fst kvs) \<and> getProp (JObj kvs) ''v'' = JNum 1))"
  by (simp add: isPinoLog_def)

lemma map_of_setKey: "map_of (setKey kvs k v) k' = (if k' = k then Some v else map_of kvs k')"
  by (induction kvs) auto

lemma keys_setKey:
  "map fst (setKey kvs k v) = (if k \<in> set (map fst kvs) then map fst kvs else map fst kvs @ [k])"
  by (induction kvs) auto

lemma getProp_setProp:
  "getProp (setProp (JObj kvs) k v) k' = (if k' = k then v else getProp (JObj kvs) k')"
  by (simp add: map_of_setKey)

lemma translate_JObj:
  assumes "translate lib opts (JObj kvs) = Inr log"
  shows "\<exists>kvs'. log = JObj kvs' \<and> (\<forall>k. k \<noteq> ''time'' \<longrightarrow> map_of kvs' k = map_of kvs k)
           \<and> (map fst kvs' = map fst kvs \<or> map fst kvs' = map fst kvs @ [''time''])
           \<and> (\<not> translateTime opts \<longrightarrow> kvs' = kvs)"
  using assms
  by (auto simp: translate_def bindE_eq_Inr map_of_setKey keys_setKey split: if_splits)

lemma translate_getProp:
  assumes "translate lib opts parsed = Inr log" and "k \<noteq> ''time''"
  shows "getProp log k = getProp parsed k"
  using assms
  by (cases parsed) (auto simp: translate_def bindE_eq_Inr map_of_setKey split: if_splits)









lemma pretty_recognized:
  assumes "jsonParser lib inputLine = Some parsed" and "isPinoLog parsed = Inr True"
  shows "pretty lib opts inputLine =
     bindE (translate lib opts parsed) (\<lambda>log.
     bindE (header lib opts log) (\<lambda>line.
     bindE (body opts log []) (\<lambda>rest. Inr (line @ rest))))"
proof -
  have "bindE (header lib opts log) (body opts log) =
        bindE (header lib opts log) (\<lambda>line. bindE (body opts log []) (\<lambda>rest. Inr (line @ rest)))"
    for log
    by (cases "header lib opts log") (simp_all add: body_append [symmetric])
  with assms show ?thesis by (simp add: pretty_def)
qed

lemma pretty_Inr:
  assumes "jsonParser lib inputLine = Some parsed" and "isPinoLog parsed = Inr True"
    and "pretty lib opts inputLine = Inr out"
  shows "\<exists>log time level ident msg rest.
      translate lib opts parsed = Inr log
    \<and> toString (getProp log ''time'') = Inr time
    \<and> coloredLevel lib opts log = Inr level
    \<and> identity log = Inr ident
    \<and> message opts log = Inr msg
    \<and> body opts log [] = Inr rest
    \<and> out = (if levelFirst opts then level @ '' ['' @ time @ '']''
             else ''['' @ time @ ''] '' @ level)
            @ ident @ '': '' @ msg @ EOL opts @ rest"
  using assms(3) unfolding pretty_recognized [OF assms(1,2)] header_def
  by (auto simp: bindE_eq_Inr)

text \<open>The definitions a run of the formatter on a sample line unfolds.\<close>

lemmas run_defs =
  pretty_def stubLib_def isPinoLog_def translate_def header_def coloredLevel_def levels_def
  color_def nocolor_def identity_def message_def objectPrototype_def EOL_def body_def
  errorBranch_def
  filterObjects_def filterStep_def propsStep_def standardKeys_def IDENT_def
  numToString_def showNat.simps defaultOptions_def

lemma join_indented:
  "join eol (l # map (\<lambda>x. ind @ x) ls) @ eol = l @ eol @ concat (map (\<lambda>x. ind @ x @ eol) ls)"
  by (induction ls arbitrary: l) simp_all

lemma splitLines_nonempty: "splitLines s \<noteq> []"
  by (induction s rule: splitLines.induct) (auto split: list.splits)

lemma joinLinesWithIndentation_JStr:
  "\<exists>st. joinLinesWithIndentation eol (JStr s) = Inr st
      \<and> IDENT @ st @ eol = concat (map (\<lambda>l. IDENT @ l @ eol) (splitLines s))"
proof (cases "splitLines s")
  case Nil
  then show ?thesis using splitLines_nonempty by simp
next
  case (Cons l ls)
  then show ?thesis using join_indented [of eol l IDENT ls] by simp
qed

lemma errorBranch_stack:
  assumes "getProp log ''stack'' = JStr s" and "errorBranch opts log [] = Inr rest"
  shows "\<exists>props. rest = concat (map (\<lambda>l. IDENT @ l @ EOL opts) (splitLines s)) @ props"
proof -
  obtain st where st: "joinLinesWithIndentation (EOL opts) (JStr s) = Inr st"
    and blk: "IDENT @ st @ EOL opts = concat (map (\<lambda>l. IDENT @ l @ EOL opts) (splitLines s))"
    using joinLinesWithIndentation_JStr by blast
  have "\<exists>props. rest = (IDENT @ st @ EOL opts) @ props"
    using assms(2) unfolding errorBranch_def assms(1) st Let_def
    by (subst (asm) propsLoop_append) (auto simp: bindE_eq_Inr split: if_splits)
  with blk show ?thesis by simp
qed

lemma filterStep_hidden:
  assumes "fst p \<notin> set elk" and "fst p \<in> set fk"
  shows "filterStep eol elk fk p result = Inr result"
  using assms by (simp add: filterStep_def)

lemma filterLoop_chunks:
  assumes "filterLoop eol elk fk kvs [] = Inr out"
  shows "\<exists>chunks. out = concat chunks
     \<and> list_all2 (\<lambda>p chunk. filterStep eol elk fk p [] = Inr chunk)
          (filter (\<lambda>p. fst p \<in> set elk \<or> fst p \<notin> set fk) kvs) chunks"
  using assms
proof (induction kvs arbitrary: out)
  case Nil
  then show ?case by simp
next
  case (Cons p kvs)
  from Cons.prems obtain c where c: "filterStep eol elk fk p [] = Inr c"
    and l: "filterLoop eol elk fk kvs c = Inr out"
    by (auto simp: bindE_eq_Inr)
  from l obtain r where r: "filterLoop eol elk fk kvs [] = Inr r" and out: "out = c @ r"
    by (subst (asm) filterLoop_append) (auto simp: bindE_eq_Inr)
  from Cons.IH [OF r] obtain chunks where ch: "r = concat chunks"
    "list_all2 (\<lambda>p chunk. filterStep eol elk fk p [] = Inr chunk)
          (filter (\<lambda>p. fst p \<in> set elk \<or> fst p \<notin> set fk) kvs) chunks"
    by blast
  show ?case
  proof (cases "fst p \<in> set elk \<or> fst p \<notin> set fk")
    case True
    with c ch out show ?thesis
      by (intro exI [of _ "c # chunks"]) simp
  next
    case False
    then have "filterStep eol elk fk p [] = Inr []" by (simp add: filterStep_hidden)
    with c have "c = []" by simp
    with False ch out show ?thesis
      by (intro exI [of _ chunks]) simp
  qed
qed

lemma filterStep_visible:
  assumes "filterStep eol elk fk p [] = Inr chunk"
    and "fst p \<in> set elk \<or> fst p \<notin> set fk"
  shows "\<exists>s. joinLinesWithIndentation eol (JSON_stringify (snd p)) = Inr s
     \<and> chunk = (if fst p \<in> set elk
                then stackLoop (splitChar LF (IDENT @ fst p @ '': '' @ s @ eol)) 0 []
                else IDENT @ fst p @ '': '' @ s @ eol)"
  using assms by (auto simp: filterStep_def bindE_eq_Inr split: if_splits)




text \<open>What the loops append ends with a line feed.\<close>

lemma splitChar_nonempty: "splitChar sep s \<noteq> []"
  by (induction s) (auto split: list.splits)

lemma splitChar_snoc: "splitChar sep (s @ [sep]) = splitChar sep s @ [[]]"
proof (induction s)
  case Nil
  show ?case by simp
next
  case (Cons c s)
  obtain l ls where "splitChar sep s = l # ls"
    using splitChar_nonempty [of sep s] by (cases "splitChar sep s") auto
  with Cons show ?case by simp
qed

lemma stackLoop_snoc_empty:
  "stackLoop (ls @ [[]]) j result =
     stackLoop ls j result @ (if j + length ls \<noteq> 0 then [LF] else [])"
proof (induction ls arbitrary: j result)
  case Nil
  show ?case by (simp add: stackTest_def startsWith_def)
next
  case (Cons l ls)
  show ?case by (simp add: Cons.IH)
qed

lemma EOL_last: "EOL opts \<noteq> [] \<and> last (EOL opts) = LF"
  by (simp add: EOL_def)

lemma EOL_snoc: "\<exists>pre. EOL opts = pre @ [LF]"
  by (cases "crlf opts") (simp_all add: EOL_def)

lemma stackLoop_split_last: "last (stackLoop (splitChar LF (t @ EOL opts)) 0 []) = LF"
proof -
  obtain pre where pre: "EOL opts = pre @ [LF]" using EOL_snoc by blast
  have "splitChar LF (t @ EOL opts) = splitChar LF (t @ pre) @ [[]]"
    using splitChar_snoc [of LF "t @ pre"] by (simp add: pre)
  moreover have "length (splitChar LF (t @ pre)) \<noteq> 0"
    using splitChar_nonempty by simp
  ultimately show ?thesis by (simp add: stackLoop_snoc_empty)
qed

lemma filterStep_last:
  assumes "filterStep (EOL opts) elk fk p [] = Inr chunk"
  shows "chunk = [] \<or> last chunk = LF"
proof (cases "fst p \<in> set elk")
  case True
  with assms obtain s where
    "chunk = stackLoop (splitChar LF (IDENT @ fst p @ '': '' @ s @ EOL opts)) 0 []"
    by (auto simp: filterStep_def bindE_eq_Inr)
  then show ?thesis
    using stackLoop_split_last [of "IDENT @ fst p @ '': '' @ s" opts] by simp
next
  case False
  with assms show ?thesis
    by (auto simp: filterStep_def bindE_eq_Inr EOL_last split: if_splits)
qed

lemma last_append_LF:
  assumes "c = [] \<or> last c = x" and "r = [] \<or> last r = x"
  shows "c @ r = [] \<or> last (c @ r) = x"
  using assms by (cases "r = []") simp_all

lemma filterLoop_last:
  assumes "filterLoop (EOL opts) elk fk kvs [] = Inr out"
  shows "out = [] \<or> last out = LF"
  using assms
proof (induction kvs arbitrary: out)
  case Nil
  then show ?case by simp
next
  case (Cons p kvs)
  from Cons.prems obtain c where c: "filterStep (EOL opts) elk fk p [] = Inr c"
    and l: "filterLoop (EOL opts) elk fk kvs c = Inr out"
    by (auto simp: bindE_eq_Inr)
  from l obtain r where r: "filterLoop (EOL opts) elk fk kvs [] = Inr r" and out: "out = c @ r"
    by (subst (asm) filterLoop_append) (auto simp: bindE_eq_Inr)
  show ?case
    unfolding out by (rule last_append_LF [OF filterStep_last [OF c] Cons.IH [OF r]])
qed

lemma filterObjects_last:
  assumes "filterObjects (EOL opts) value mk elk ex = Inr out"
  shows "out = [] \<or> last out = LF"
proof -
  from assms obtain keys where
    "filterLoop (EOL opts) elk ([mk] @ (if ex then standardKeys else [])) keys [] = Inr out"
    unfolding filterObjects_def bindE_eq_Inr by blast
  then show ?thesis by (rule filterLoop_last)
qed

lemma propsStep_last:
  assumes "propsStep (EOL opts) elk log key [] = Inr entry"
  shows "entry = [] \<or> last entry = LF"
proof -
  have e: "last (t @ EOL opts) = LF" for t
    by (simp add: EOL_last)
  from assms consider "entry = []"
    | s where "entry = (key @ '': {'' @ EOL opts @ s @ ''}'') @ EOL opts"
    | s where "entry = (key @ '': '' @ s) @ EOL opts"
    by (auto simp: propsStep_def bindE_eq_Inr split: if_splits)
  then show ?thesis
    by cases (simp_all only: e simp_thms)
qed

lemma propsLoop_last:
  assumes "propsLoop (EOL opts) elk log ks [] = Inr out"
  shows "out = [] \<or> last out = LF"
  using assms
proof (induction ks arbitrary: out)
  case Nil
  then show ?case by simp
next
  case (Cons k ks)
  from Cons.prems obtain c where c: "propsStep (EOL opts) elk log k [] = Inr c"
    and l: "propsLoop (EOL opts) elk log ks c = Inr out"
    by (auto simp: bindE_eq_Inr)
  from l obtain r where r: "propsLoop (EOL opts) elk log ks [] = Inr r" and out: "out = c @ r"
    by (subst (asm) propsLoop_append) (auto simp: bindE_eq_Inr)
  show ?case
    unfolding out by (rule last_append_LF [OF propsStep_last [OF c] Cons.IH [OF r]])
qed

lemma errorBranch_last:
  assumes "errorBranch opts log [] = Inr out"
  shows "out \<noteq> [] \<and> last out = LF"
proof -
  from assms obtain stack where
    "(\<exists>ks. propsLoop (EOL opts) (errorLikeObjectKeys opts) log ks ([] @ IDENT @ stack @ EOL opts) = Inr out)
     \<or> out = IDENT @ stack @ EOL opts"
    unfolding errorBranch_def Let_def
    by (auto simp: bindE_eq_Inr split: if_splits)
  then show ?thesis
  proof
    assume "\<exists>ks. propsLoop (EOL opts) (errorLikeObjectKeys opts) log ks ([] @ IDENT @ stack @ EOL opts) = Inr out"
    then obtain ks r where "propsLoop (EOL opts) (errorLikeObjectKeys opts) log ks [] = Inr r"
      and out: "out = (IDENT @ stack @ EOL opts) @ r"
      by (subst (asm) propsLoop_append) (auto simp: bindE_eq_Inr)
    then have "r = [] \<or> last r = LF" using propsLoop_last by blast
    with out show ?thesis by (auto simp: EOL_last last_append)
  next
    assume "out = IDENT @ stack @ EOL opts"
    then show ?thesis by (simp add: EOL_last)
  qed
qed

lemma body_last:
  assumes "body opts log [] = Inr out"
  shows "out = [] \<or> last out = LF"
proof (cases "getProp log ''type'' = JStr ''Error''")
  case True
  with assms have "errorBranch opts log [] = Inr out" by (simp add: body_def)
  then show ?thesis using errorBranch_last by blast
next
  case False
  with assms have "filterObjects (EOL opts) log (messageKey opts) (errorLikeObjectKeys opts) True
    = Inr out"
    by (simp add: body_def)
  then show ?thesis by (rule filterObjects_last)
qed

lemma header_last:
  assumes "header lib opts log = Inr line"
  shows "line \<noteq> [] \<and> last line = LF"
proof -
  from assms obtain t where "line = t @ EOL opts"
    by (auto simp: header_def bindE_eq_Inr)
  then show ?thesis by (simp add: EOL_last)
qed

lemma filterLoop_pieces:
  assumes "filterLoop eol elk fk kvs [] = Inr out"
  shows "\<exists>chunks. out = concat chunks
     \<and> list_all2 (\<lambda>p chunk. filterStep eol elk fk p [] = Inr chunk) kvs chunks"
  using assms
proof (induction kvs arbitrary: out)
  case Nil
  then show ?case by simp
next
  case (Cons p kvs)
  from Cons.prems obtain c where c: "filterStep eol elk fk p [] = Inr c"
    and l: "filterLoop eol elk fk kvs c = Inr out"
    by (auto simp: bindE_eq_Inr)
  from l obtain r where r: "filterLoop eol elk fk kvs [] = Inr r" and out: "out = c @ r"
    by (subst (asm) filterLoop_append) (auto simp: bindE_eq_Inr)
  from Cons.IH [OF r] obtain chunks where "r = concat chunks"
    "list_all2 (\<lambda>p chunk. filterStep eol elk fk p [] = Inr chunk) kvs chunks"
    by blast
  with c out show ?case
    by (intro exI [of _ "c # chunks"]) simp
qed

lemma filterStep_cases:
  assumes "filterStep eol elk fk p [] = Inr chunk"
  shows "if fst p \<in> set elk
         then \<exists>s. joinLinesWithIndentation eol (JSON_stringify (snd p)) = Inr s
                \<and> chunk = stackLoop (splitChar LF (IDENT @ fst p @ '': '' @ s @ eol)) 0 []
         else if fst p \<in> set fk then chunk = []
         else \<exists>s. joinLinesWithIndentation eol (JSON_stringify (snd p)) = Inr s
                \<and> chunk = IDENT @ fst p @ '': '' @ s @ eol"
  using assms by (auto simp: filterStep_def bindE_eq_Inr split: if_splits)

text \<open>
  A message key that names a method of \<^verbatim>\<open>Object.prototype\<close> prints the method as the
  message, and the field \<^verbatim>\<open>msg\<close> is an ordinary field then.
\<close>

lemma inherited_message_key: "pretty (stubLib [(noTimeLine, noTimeRecord)])
        (defaultOptions \<lparr> messageKey := ''toString'' \<rparr>) noTimeLine
     = Inr (''[undefined] INFO: function toString() { [native code] }'' @ [LF] @ ''    msg: '' @ [DQ] @ ''hello'' @ [DQ] @ [LF])"
  by (simp add: noTimeRecord_def run_defs JSON_stringify_def quoteJSONString_def quoteChar_def
          gap_def LF_def CR_def DQ_def BSL_def)

section \<open>C1: pass-through of unrecognized lines\<close>

text \<open>
  The lines that are passed through: the parser reports an error, or the value is falsy,
  or it has no own \<^verbatim>\<open>v\<close>, or its \<^verbatim>\<open>v\<close> is not 1, the method \<^verbatim>\<open>hasOwnProperty\<close> being the
  inherited one.
\<close>

lemma pretty_passes_through:
  assumes "jsonParser lib inputLine = None
     \<or> (\<exists>v. jsonParser lib inputLine = Some v \<and>
            (\<not> truthy v \<or> hasOwnProperty v ''v'' = Inr False
             \<or> (hasOwnProperty v ''v'' = Inr True \<and> getProp v ''v'' \<noteq> JNum 1)))"
  shows "pretty lib opts inputLine = Inr (inputLine @ EOL opts)"
  using assms by (auto simp: pretty_def isPinoLog_def)

text \<open>
  C1. A line whose parsed value is an object with an own property \<^verbatim>\<open>hasOwnProperty\<close> is
  not passed through: \<^verbatim>\<open>isPinoLog\<close> calls \<^verbatim>\<open>log.hasOwnProperty('v')\<close>, the own property
  shadows the inherited method, and the call throws a TypeError that nothing catches,
  whether or not the object carries \<^verbatim>\<open>v\<close>.
\<close>

theorem pretty_shadowed_hasOwnProperty:
  assumes "jsonParser lib inputLine = Some (JObj kvs)"
    and "''hasOwnProperty'' \<in> set (map fst kvs)"
  shows "pretty lib opts inputLine = Inl TypeError"
  using assms by (simp add: pretty_def isPinoLog_JObj)

theorem pretty_shadowed_hasOwnProperty_witness:
  \<open>jsonParser (stubLib [(''{"hasOwnProperty":1}'', JObj [(''hasOwnProperty'', JNum 1)])])
       ''{"hasOwnProperty":1}'' = Some (JObj [(''hasOwnProperty'', JNum 1)])
   \<and> ''hasOwnProperty'' \<in> set (map fst [(''hasOwnProperty'', JNum 1)])
   \<and> pretty (stubLib [(''{"hasOwnProperty":1}'', JObj [(''hasOwnProperty'', JNum 1)])])
        defaultOptions ''{"hasOwnProperty":1}'' = Inl TypeError\<close>
proof -
  have p: \<open>jsonParser (stubLib [(''{"hasOwnProperty":1}'', JObj [(''hasOwnProperty'', JNum 1)])])
       ''{"hasOwnProperty":1}'' = Some (JObj [(''hasOwnProperty'', JNum 1)])\<close>
    by (simp add: stubLib_def)
  have k: "''hasOwnProperty'' \<in> set (map fst [(''hasOwnProperty'', JNum 1)])"
    by simp
  show ?thesis
    using p k pretty_shadowed_hasOwnProperty [OF p k, of defaultOptions] by simp
qed

section \<open>C2: exceptions that escape\<close>

text \<open>
  C2. The formatter is not total: a recognized record of type \<^verbatim>\<open>Error\<close> whose \<^verbatim>\<open>stack\<close> is
  not a string (absent, for one) makes \<^verbatim>\<open>joinLinesWithIndentation\<close> call \<^verbatim>\<open>split\<close> on a
  value that has none. Under every configuration and with every behaviour of the
  libraries the call of \<^verbatim>\<open>pretty\<close> ends in an exception.
\<close>

theorem pretty_error_without_stack:
  assumes "jsonParser lib inputLine = Some parsed"
    and "isPinoLog parsed = Inr True"
    and "getProp parsed ''type'' = JStr ''Error''"
    and "\<forall>s. getProp parsed ''stack'' \<noteq> JStr s"
  shows "\<exists>e. pretty lib opts inputLine = Inl e"
proof (cases "translate lib opts parsed")
  case (Inl e)
  with assms(1,2) show ?thesis by (simp add: pretty_def)
next
  case (Inr log)
  have ty: "getProp log ''type'' = JStr ''Error''"
    using translate_getProp [OF Inr, of "''type''"] assms(3) by simp
  have "getProp log ''stack'' = getProp parsed ''stack''"
    using translate_getProp [OF Inr, of "''stack''"] by simp
  with assms(4) have "\<forall>s. getProp log ''stack'' \<noteq> JStr s" by simp
  then have st: "joinLinesWithIndentation eol (getProp log ''stack'') = Inl TypeError" for eol
    by (cases "getProp log ''stack''") simp_all
  show ?thesis
  proof (cases "header lib opts log")
    case (Inl e)
    with assms(1,2) Inr show ?thesis by (simp add: pretty_def)
  next
    case (Inr line)
    with assms(1,2) \<open>translate lib opts parsed = Inr log\<close> ty st show ?thesis
      by (simp add: pretty_def body_def errorBranch_def)
  qed
qed

theorem pretty_error_without_stack_witness:
  \<open>jsonParser (stubLib [(''{"v":1,"type":"Error"}'', JObj [(''v'', JNum 1), (''type'', JStr ''Error'')])])
      ''{"v":1,"type":"Error"}'' = Some (JObj [(''v'', JNum 1), (''type'', JStr ''Error'')])
   \<and> isPinoLog (JObj [(''v'', JNum 1), (''type'', JStr ''Error'')]) = Inr True
   \<and> getProp (JObj [(''v'', JNum 1), (''type'', JStr ''Error'')]) ''type'' = JStr ''Error''
   \<and> (\<forall>s. getProp (JObj [(''v'', JNum 1), (''type'', JStr ''Error'')]) ''stack'' \<noteq> JStr s)
   \<and> (\<exists>e. pretty (stubLib [(''{"v":1,"type":"Error"}'', JObj [(''v'', JNum 1), (''type'', JStr ''Error'')])])
              defaultOptions ''{"v":1,"type":"Error"}'' = Inl e)\<close>
proof -
  let ?v = "JObj [(''v'', JNum 1), (''type'', JStr ''Error'')]"
  have a: \<open>jsonParser (stubLib [(''{"v":1,"type":"Error"}'', ?v)]) ''{"v":1,"type":"Error"}'' = Some ?v\<close>
    by (simp add: stubLib_def)
  have b: "isPinoLog ?v = Inr True" by (simp add: isPinoLog_def)
  have c: "getProp ?v ''type'' = JStr ''Error''" by simp
  have d: "\<forall>s. getProp ?v ''stack'' \<noteq> JStr s" by simp
  show ?thesis
    using a b c d pretty_error_without_stack [OF a b c d, of defaultOptions] by blast
qed

section \<open>C3: failures of the time formatting\<close>

text \<open>Only a failure of \<^verbatim>\<open>formatter.format\<close> is caught; the raw timestamp is the result then.\<close>

lemma formatTime_fallback:
  assumes "ofEpochMilli lib epoch = Inr instant"
    and "ofInstant lib instant (if localTime' then SYSTEM else UTC) = Inr zonedDateTime"
    and "ofPattern lib formatString = Inr formatter"
    and "format lib formatter zonedDateTime = Inl e"
  shows "formatTime lib epoch formatString localTime' = Inr epoch"
  using assms by (simp add: formatTime_def)

text \<open>
  C3. With \<^verbatim>\<open>translateTime\<close> on, an exception of \<^verbatim>\<open>Instant.ofEpochMilli\<close> (a timestamp out
  of range) or of \<^verbatim>\<open>DateTimeFormatter.ofPattern\<close> (a bad pattern) is raised before the
  \<^verbatim>\<open>try\<close> block of \<^verbatim>\<open>formatTime\<close> is entered: it leaves \<^verbatim>\<open>pretty\<close>, and no raw timestamp is
  printed.
\<close>

theorem formatTime_failure_escapes:
  assumes "jsonParser lib inputLine = Some parsed"
    and "isPinoLog parsed = Inr True"
    and "translateTime opts"
    and "ofEpochMilli lib (getProp parsed ''time'') = Inl e
         \<or> (\<exists>instant zonedDateTime.
               ofEpochMilli lib (getProp parsed ''time'') = Inr instant
             \<and> ofInstant lib instant (if localTime opts then SYSTEM else UTC) = Inr zonedDateTime
             \<and> ofPattern lib (dateFormat opts) = Inl e)"
  shows "pretty lib opts inputLine = Inl e"
proof -
  from assms(4) have "formatTime lib (getProp parsed ''time'') (dateFormat opts) (localTime opts) = Inl e"
    by (auto simp: formatTime_def)
  with assms(1-3) show ?thesis
    by (simp add: pretty_def translate_def)
qed

theorem formatTime_failure_escapes_witness:
  \<open>jsonParser ((stubLib [(''{"v":1,"time":1500000000000}'', JObj [(''v'', JNum 1), (''time'', JNum 1500000000000)])])
                  \<lparr> ofPattern := (\<lambda>pattern. Inl IllegalArgumentException) \<rparr>)
      ''{"v":1,"time":1500000000000}'' = Some (JObj [(''v'', JNum 1), (''time'', JNum 1500000000000)])
   \<and> isPinoLog (JObj [(''v'', JNum 1), (''time'', JNum 1500000000000)]) = Inr True
   \<and> translateTime (defaultOptions \<lparr> dateFormat := ''{'', translateTime := True \<rparr>)
   \<and> pretty ((stubLib [(''{"v":1,"time":1500000000000}'', JObj [(''v'', JNum 1), (''time'', JNum 1500000000000)])])
                  \<lparr> ofPattern := (\<lambda>pattern. Inl IllegalArgumentException) \<rparr>)
        (defaultOptions \<lparr> dateFormat := ''{'', translateTime := True \<rparr>)
        ''{"v":1,"time":1500000000000}'' = Inl IllegalArgumentException\<close>
proof -
  let ?v = "JObj [(''v'', JNum 1), (''time'', JNum 1500000000000)]"
  let ?lib = \<open>(stubLib [(''{"v":1,"time":1500000000000}'', ?v)])
                  \<lparr> ofPattern := (\<lambda>pattern. Inl IllegalArgumentException) \<rparr>\<close>
  let ?opts = "defaultOptions \<lparr> dateFormat := ''{'', translateTime := True \<rparr>"
  have a: \<open>jsonParser ?lib ''{"v":1,"time":1500000000000}'' = Some ?v\<close>
    by (simp add: stubLib_def)
  have b: "isPinoLog ?v = Inr True" by (simp add: isPinoLog_def)
  have c: "translateTime ?opts" by simp
  have d: "ofEpochMilli ?lib (getProp ?v ''time'') = Inl IllegalArgumentException
         \<or> (\<exists>instant zonedDateTime.
               ofEpochMilli ?lib (getProp ?v ''time'') = Inr instant
             \<and> ofInstant ?lib instant (if localTime ?opts then SYSTEM else UTC) = Inr zonedDateTime
             \<and> ofPattern ?lib (dateFormat ?opts) = Inl IllegalArgumentException)"
    by (simp add: stubLib_def)
  show ?thesis
    using a b c formatTime_failure_escapes [OF a b c d] by simp
qed

section \<open>C4: the stack block of an error record\<close>

text \<open>
  The first line of the stack is not left unindented: line 143 puts one indentation unit
  before the joined lines, so the first line is indented like the others.
\<close>

theorem stack_block_counterexample:
  "pretty (stubLib [(errorLine, errorRecord)]) defaultOptions errorLine
     = Inr (''[undefined] ERROR: boom'' @ [LF] @
            ''    Error: boom'' @ [LF] @
            ''        at f (x.js:1:1)'' @ [LF])
   \<and> pretty (stubLib [(errorLine, errorRecord)]) defaultOptions errorLine
     \<noteq> Inr (''[undefined] ERROR: boom'' @ [LF] @
            ''Error: boom'' @ [LF] @
            IDENT @ ''    at f (x.js:1:1)'' @ [LF])"
  by (simp add: errorRecord_def run_defs LF_def CR_def)

text \<open>
  C4 (amended). For a recognized record of type \<^verbatim>\<open>Error\<close> whose \<^verbatim>\<open>stack\<close> is a string, every
  chunk the formatter returns is the header line, then the stack block, then the extra
  properties. The stack block is the lines of the stack (split at \<^verbatim>\<open>\n\<close> or \<^verbatim>\<open>\r\n\<close>), each
  of them, the first included, preceded by exactly one indentation unit and followed by
  the configured terminator.
\<close>

theorem stack_block:
  assumes "jsonParser lib inputLine = Some parsed"
    and "isPinoLog parsed = Inr True"
    and "getProp parsed ''type'' = JStr ''Error''"
    and "getProp parsed ''stack'' = JStr s"
    and "pretty lib opts inputLine = Inr out"
  shows "\<exists>log line props.
      translate lib opts parsed = Inr log
    \<and> header lib opts log = Inr line
    \<and> out = line @ concat (map (\<lambda>l. IDENT @ l @ EOL opts) (splitLines s)) @ props"
proof -
  from assms(5) obtain log line rest where
    tr: "translate lib opts parsed = Inr log"
    and hd: "header lib opts log = Inr line"
    and bd: "body opts log [] = Inr rest"
    and out: "out = line @ rest"
    unfolding pretty_recognized [OF assms(1,2)] by (auto simp: bindE_eq_Inr)
  have "getProp log ''type'' = JStr ''Error''" "getProp log ''stack'' = JStr s"
    using translate_getProp [OF tr] assms(3,4) by simp_all
  with bd obtain props where
    "rest = concat (map (\<lambda>l. IDENT @ l @ EOL opts) (splitLines s)) @ props"
    using errorBranch_stack [of log s opts rest] by (auto simp: body_def)
  with tr hd out show ?thesis by blast
qed

theorem stack_block_witness:
  "jsonParser (stubLib [(errorLine, errorRecord)]) errorLine = Some errorRecord
   \<and> isPinoLog errorRecord = Inr True
   \<and> getProp errorRecord ''type'' = JStr ''Error''
   \<and> getProp errorRecord ''stack'' = JStr (''Error: boom'' @ [LF] @ ''    at f (x.js:1:1)'')
   \<and> pretty (stubLib [(errorLine, errorRecord)]) defaultOptions errorLine
     = Inr (''[undefined] ERROR: boom'' @ [LF] @
            ''    Error: boom'' @ [LF] @
            ''        at f (x.js:1:1)'' @ [LF])
   \<and> (\<exists>line props. ''[undefined] ERROR: boom'' @ [LF] @
            ''    Error: boom'' @ [LF] @
            ''        at f (x.js:1:1)'' @ [LF]
        = line @ concat (map (\<lambda>l. IDENT @ l @ EOL defaultOptions)
                          (splitLines (''Error: boom'' @ [LF] @ ''    at f (x.js:1:1)''))) @ props)"
proof -
  have a: "jsonParser (stubLib [(errorLine, errorRecord)]) errorLine = Some errorRecord"
    by (simp add: stubLib_def)
  have b: "isPinoLog errorRecord = Inr True" by (simp add: isPinoLog_def errorRecord_def)
  have c: "getProp errorRecord ''type'' = JStr ''Error''" by (simp add: errorRecord_def)
  have d: "getProp errorRecord ''stack'' = JStr (''Error: boom'' @ [LF] @ ''    at f (x.js:1:1)'')"
    by (simp add: errorRecord_def)
  have e: "pretty (stubLib [(errorLine, errorRecord)]) defaultOptions errorLine
     = Inr (''[undefined] ERROR: boom'' @ [LF] @
            ''    Error: boom'' @ [LF] @
            ''        at f (x.js:1:1)'' @ [LF])"
    by (simp add: errorRecord_def run_defs LF_def CR_def)
  from stack_block [OF a b c d e] have
    "\<exists>line props. ''[undefined] ERROR: boom'' @ [LF] @
            ''    Error: boom'' @ [LF] @
            ''        at f (x.js:1:1)'' @ [LF]
        = line @ concat (map (\<lambda>l. IDENT @ l @ EOL defaultOptions)
                          (splitLines (''Error: boom'' @ [LF] @ ''    at f (x.js:1:1)''))) @ props"
    by blast
  with a b c d e show ?thesis by blast
qed

section \<open>C5: the severity token\<close>



section \<open>C6: the wildcard of \<^verbatim>\<open>errorProps\<close>\<close>



section \<open>C7: the identity block\<close>

text \<open>
  The block does not appear whenever the record carries one of the three fields: the
  tests of lines 114 to 127 are tests of truthiness. A record whose only identity field
  is the process id 0 gets no block.
\<close>

theorem identity_block_counterexample:
  "hasOwnProperty pidZeroRecord ''pid'' = Inr True
   \<and> pretty (stubLib [(pidZeroLine, pidZeroRecord)]) defaultOptions pidZeroLine
       = Inr (''[1] INFO: '' @ [LF])"
  by (simp add: pidZeroRecord_def run_defs)

text \<open>
  C7 (amended). Every chunk returned for a recognized record is the timestamp and level,
  the identity block, a colon and a space, the message, the terminator and the body. The
  block is present exactly when the name, the process id or the hostname is truthy
  (present and not \<^verbatim>\<open>null\<close>, \<^verbatim>\<open>false\<close>, 0 or the empty string). In parentheses it holds
  the name if truthy; the process id if truthy, after a slash when the name is truthy
  too; and the hostname if truthy, after \<^verbatim>\<open> on \<close>.
\<close>

theorem identity_block:
  assumes "jsonParser lib inputLine = Some parsed"
    and "isPinoLog parsed = Inr True"
    and "pretty lib opts inputLine = Inr out"
  shows "\<exists>log time level msg rest n p h.
      translate lib opts parsed = Inr log
    \<and> toString (getProp log ''time'') = Inr time
    \<and> coloredLevel lib opts log = Inr level
    \<and> message opts log = Inr msg
    \<and> body opts log [] = Inr rest
    \<and> (truthy (getProp parsed ''name'') \<longrightarrow> toString (getProp parsed ''name'') = Inr n)
    \<and> (truthy (getProp parsed ''pid'') \<longrightarrow> toString (getProp parsed ''pid'') = Inr p)
    \<and> (truthy (getProp parsed ''hostname'') \<longrightarrow> toString (getProp parsed ''hostname'') = Inr h)
    \<and> out = (if levelFirst opts then level @ '' ['' @ time @ '']''
             else ''['' @ time @ ''] '' @ level)
            @ (if truthy (getProp parsed ''name'') \<or> truthy (getProp parsed ''pid'')
                  \<or> truthy (getProp parsed ''hostname'')
               then '' (''
                    @ (if truthy (getProp parsed ''name'') then n else [])
                    @ (if truthy (getProp parsed ''name'') \<and> truthy (getProp parsed ''pid'')
                       then ''/'' @ p
                       else if truthy (getProp parsed ''pid'') then p else [])
                    @ (if truthy (getProp parsed ''hostname'') then '' on '' @ h else [])
                    @ '')''
               else [])
            @ '': '' @ msg @ EOL opts @ rest"
proof -
  from pretty_Inr [OF assms] obtain log time level ident msg rest where
    tr: "translate lib opts parsed = Inr log"
    and tm: "toString (getProp log ''time'') = Inr time"
    and lv: "coloredLevel lib opts log = Inr level"
    and idt: "identity log = Inr ident"
    and ms: "message opts log = Inr msg"
    and bd: "body opts log [] = Inr rest"
    and out: "out = (if levelFirst opts then level @ '' ['' @ time @ '']''
                     else ''['' @ time @ ''] '' @ level)
                    @ ident @ '': '' @ msg @ EOL opts @ rest"
    by blast
  have g: "getProp log ''name'' = getProp parsed ''name''"
    "getProp log ''pid'' = getProp parsed ''pid''"
    "getProp log ''hostname'' = getProp parsed ''hostname''"
    using translate_getProp [OF tr] by simp_all
  have "\<exists>n p h.
      (truthy (getProp parsed ''name'') \<longrightarrow> toString (getProp parsed ''name'') = Inr n)
    \<and> (truthy (getProp parsed ''pid'') \<longrightarrow> toString (getProp parsed ''pid'') = Inr p)
    \<and> (truthy (getProp parsed ''hostname'') \<longrightarrow> toString (getProp parsed ''hostname'') = Inr h)
    \<and> ident = (if truthy (getProp parsed ''name'') \<or> truthy (getProp parsed ''pid'')
                  \<or> truthy (getProp parsed ''hostname'')
               then '' (''
                    @ (if truthy (getProp parsed ''name'') then n else [])
                    @ (if truthy (getProp parsed ''name'') \<and> truthy (getProp parsed ''pid'')
                       then ''/'' @ p
                       else if truthy (getProp parsed ''pid'') then p else [])
                    @ (if truthy (getProp parsed ''hostname'') then '' on '' @ h else [])
                    @ '')''
               else [])"
    using idt unfolding identity_def Let_def g
    by (cases "truthy (getProp parsed ''name'')"; cases "truthy (getProp parsed ''pid'')";
        cases "truthy (getProp parsed ''hostname'')")
       (auto simp: bindE_eq_Inr)
  then obtain n p h where
      "(truthy (getProp parsed ''name'') \<longrightarrow> toString (getProp parsed ''name'') = Inr n)
    \<and> (truthy (getProp parsed ''pid'') \<longrightarrow> toString (getProp parsed ''pid'') = Inr p)
    \<and> (truthy (getProp parsed ''hostname'') \<longrightarrow> toString (getProp parsed ''hostname'') = Inr h)
    \<and> ident = (if truthy (getProp parsed ''name'') \<or> truthy (getProp parsed ''pid'')
                  \<or> truthy (getProp parsed ''hostname'')
               then '' (''
                    @ (if truthy (getProp parsed ''name'') then n else [])
                    @ (if truthy (getProp parsed ''name'') \<and> truthy (getProp parsed ''pid'')
                       then ''/'' @ p
                       else if truthy (getProp parsed ''pid'') then p else [])
                    @ (if truthy (getProp parsed ''hostname'') then '' on '' @ h else [])
                    @ '')''
               else [])"
    by blast
  with tr tm lv ms bd out show ?thesis by blast
qed

theorem identity_block_witness:
  "jsonParser (stubLib [(infoLine, infoRecord)]) infoLine = Some infoRecord
   \<and> isPinoLog infoRecord = Inr True
   \<and> pretty (stubLib [(infoLine, infoRecord)]) defaultOptions infoLine
       = Inr (''[1500000000000] INFO (1 on h): hello'' @ [LF])
   \<and> (\<exists>time level msg rest p h.
        toString (getProp infoRecord ''pid'') = Inr p
      \<and> toString (getProp infoRecord ''hostname'') = Inr h
      \<and> ''[1500000000000] INFO (1 on h): hello'' @ [LF]
          = (''['' @ time @ ''] '' @ level) @ ('' ('' @ p @ '' on '' @ h @ '')'')
            @ '': '' @ msg @ EOL defaultOptions @ rest)"
proof -
  have a: "jsonParser (stubLib [(infoLine, infoRecord)]) infoLine = Some infoRecord"
    by (simp add: stubLib_def)
  have b: "isPinoLog infoRecord = Inr True" by (simp add: isPinoLog_def infoRecord_def)
  have d: "pretty (stubLib [(infoLine, infoRecord)]) defaultOptions infoLine
       = Inr (''[1500000000000] INFO (1 on h): hello'' @ [LF])"
    by (simp add: infoRecord_def run_defs)
  have e: "levelFirst defaultOptions = False"
    by (simp add: defaultOptions_def)
  have t: "\<not> truthy (getProp infoRecord ''name'')" "truthy (getProp infoRecord ''pid'')"
    "truthy (getProp infoRecord ''hostname'')"
    by (simp_all add: infoRecord_def)
  from identity_block [OF a b d] obtain log time level msg rest n p h where
    "toString (getProp infoRecord ''pid'') = Inr p"
    "toString (getProp infoRecord ''hostname'') = Inr h"
    "''[1500000000000] INFO (1 on h): hello'' @ [LF]
          = (''['' @ time @ ''] '' @ level) @ ('' ('' @ p @ '' on '' @ h @ '')'')
            @ '': '' @ msg @ EOL defaultOptions @ rest"
    unfolding e using t by auto
  with a b d show ?thesis by blast
qed

section \<open>C8: fields left out of the body\<close>

text \<open>
  A standard key that the configuration lists in \<^verbatim>\<open>errorLikeObjectKeys\<close> is taken by the
  error-like branch (lines 198 to 224), whose test comes first; for a plain value that
  branch writes the text \<^verbatim>\<open>key: value\<close>. The generic branch has no part in it.
\<close>

lemma errorLike_standard_key:
  "''level'' \<in> set standardKeys
   \<and> pretty (stubLib [(noTimeLine, noTimeRecord)])
        (defaultOptions \<lparr> errorLikeObjectKeys := [''level''] \<rparr>) noTimeLine
     = Inr (''[undefined] INFO: hello'' @ [LF] @ ''    level: 30'' @ [LF])"
  by (simp add: noTimeRecord_def run_defs JSON_stringify_def stackTest_def startsWith_def
        isSpace_def LF_def CR_def DQ_def)

text \<open>
  C8. For a recognized record that is not of type \<^verbatim>\<open>Error\<close>, under every configuration, the
  loop of \<^verbatim>\<open>filterObjects\<close> runs with the filtered keys: the configured message key joined
  in front of the six standard keys (it is put there by concatenation, it is not an
  element of the fixed list). In the round of a filtered key the generic branch (lines 225
  to 227) is never taken: the round is the error-like rendering when the key is listed in
  \<^verbatim>\<open>errorLikeObjectKeys\<close>, and leaves the result as it is otherwise. Every chunk the formatter
  returns is the header line followed by one piece per key of the record, in key order:
  the error-like rendering for an error-like key, nothing for a standard key or the
  message key, and the generic line \<^verbatim>\<open>key: value\<close> for the other keys only.
\<close>

theorem field_exclusion:
  assumes "jsonParser lib inputLine = Some parsed"
    and "isPinoLog parsed = Inr True"
    and "getProp parsed ''type'' \<noteq> JStr ''Error''"
    and "pretty lib opts inputLine = Inr out"
  shows "let eol = EOL opts;
             elk = errorLikeObjectKeys opts;
             filteredKeys = [messageKey opts]
                            @ [''pid'', ''hostname'', ''name'', ''level'', ''time'', ''v'']
         in (\<forall>p result. fst p \<in> set filteredKeys \<longrightarrow>
               filterStep eol elk filteredKeys p result =
                 (if fst p \<in> set elk
                  then bindE (joinLinesWithIndentation eol (JSON_stringify (snd p))) (\<lambda>s.
                         Inr (stackLoop (splitChar LF (IDENT @ fst p @ '': '' @ s @ eol)) 0 result))
                  else Inr result))
          \<and> (\<exists>log line kvs chunks.
                translate lib opts parsed = Inr log
              \<and> header lib opts log = Inr line
              \<and> log = JObj kvs
              \<and> filterLoop eol elk filteredKeys kvs [] = Inr (concat chunks)
              \<and> out = line @ concat chunks
              \<and> list_all2
                   (\<lambda>p chunk.
                      if fst p \<in> set elk
                      then \<exists>s. joinLinesWithIndentation eol (JSON_stringify (snd p)) = Inr s
                             \<and> chunk = stackLoop
                                         (splitChar LF (IDENT @ fst p @ '': '' @ s @ eol)) 0 []
                      else if fst p \<in> set filteredKeys then chunk = []
                      else \<exists>s. joinLinesWithIndentation eol (JSON_stringify (snd p)) = Inr s
                             \<and> chunk = IDENT @ fst p @ '': '' @ s @ eol)
                   kvs chunks)"
proof -
  let ?eol = "EOL opts"
  let ?fk = "[messageKey opts] @ standardKeys"
  let ?elk = "errorLikeObjectKeys opts"
  have round: "\<forall>p result. fst p \<in> set ?fk \<longrightarrow>
               filterStep ?eol ?elk ?fk p result =
                 (if fst p \<in> set ?elk
                  then bindE (joinLinesWithIndentation ?eol (JSON_stringify (snd p))) (\<lambda>s.
                         Inr (stackLoop (splitChar LF (IDENT @ fst p @ '': '' @ s @ ?eol)) 0 result))
                  else Inr result)"
    by (simp add: filterStep_def)
  from assms(4) obtain log line rest where
    tr: "translate lib opts parsed = Inr log"
    and hd: "header lib opts log = Inr line"
    and bd: "body opts log [] = Inr rest"
    and out: "out = line @ rest"
    unfolding pretty_recognized [OF assms(1,2)] by (auto simp: bindE_eq_Inr)
  from assms(2) obtain kvs0 where "parsed = JObj kvs0" using isPinoLog_True by blast
  with tr obtain kvs where log: "log = JObj kvs" using translate_JObj by blast
  have "getProp log ''type'' \<noteq> JStr ''Error''"
    using translate_getProp [OF tr, of "''type''"] assms(3) by simp
  with bd log have loop: "filterLoop ?eol ?elk ?fk kvs [] = Inr rest"
    by (simp add: body_def filterObjects_def)
  from filterLoop_pieces [OF this] obtain chunks where
    rest: "rest = concat chunks"
    and all: "list_all2 (\<lambda>p chunk. filterStep ?eol ?elk ?fk p [] = Inr chunk) kvs chunks"
    by blast
  have pieces: "list_all2
                   (\<lambda>p chunk.
                      if fst p \<in> set ?elk
                      then \<exists>s. joinLinesWithIndentation ?eol (JSON_stringify (snd p)) = Inr s
                             \<and> chunk = stackLoop
                                         (splitChar LF (IDENT @ fst p @ '': '' @ s @ ?eol)) 0 []
                      else if fst p \<in> set ?fk then chunk = []
                      else \<exists>s. joinLinesWithIndentation ?eol (JSON_stringify (snd p)) = Inr s
                             \<and> chunk = IDENT @ fst p @ '': '' @ s @ ?eol)
                   kvs chunks"
    by (rule list_all2_mono [OF all]) (rule filterStep_cases)
  from tr hd log loop out rest pieces have run: "\<exists>log line kvs chunks.
                translate lib opts parsed = Inr log
              \<and> header lib opts log = Inr line
              \<and> log = JObj kvs
              \<and> filterLoop ?eol ?elk ?fk kvs [] = Inr (concat chunks)
              \<and> out = line @ concat chunks
              \<and> list_all2
                   (\<lambda>p chunk.
                      if fst p \<in> set ?elk
                      then \<exists>s. joinLinesWithIndentation ?eol (JSON_stringify (snd p)) = Inr s
                             \<and> chunk = stackLoop
                                         (splitChar LF (IDENT @ fst p @ '': '' @ s @ ?eol)) 0 []
                      else if fst p \<in> set ?fk then chunk = []
                      else \<exists>s. joinLinesWithIndentation ?eol (JSON_stringify (snd p)) = Inr s
                             \<and> chunk = IDENT @ fst p @ '': '' @ s @ ?eol)
                   kvs chunks"
    by blast
  from round run show ?thesis
    unfolding Let_def standardKeys_def by (intro conjI)
qed

theorem field_exclusion_witness:
  "jsonParser (stubLib [(extraLine, extraRecord)]) extraLine = Some extraRecord
   \<and> isPinoLog extraRecord = Inr True
   \<and> getProp extraRecord ''type'' \<noteq> JStr ''Error''
   \<and> pretty (stubLib [(extraLine, extraRecord)]) defaultOptions extraLine
     = Inr (''[undefined] INFO: hello'' @ [LF] @ ''    extra: {'' @ [LF] @
            ''      '' @ [DQ] @ ''a'' @ [DQ] @ '': 1'' @ [LF] @ ''    }'' @ [LF])
   \<and> filterStep [LF] [''err'', ''error'']
         ([''msg''] @ [''pid'', ''hostname'', ''name'', ''level'', ''time'', ''v''])
         (''level'', JNum 30) ''[undefined] INFO: hello'' = Inr ''[undefined] INFO: hello''
   \<and> (\<exists>line chunks.
         header (stubLib [(extraLine, extraRecord)]) defaultOptions extraRecord = Inr line
       \<and> ''[undefined] INFO: hello'' @ [LF] @ ''    extra: {'' @ [LF] @
            ''      '' @ [DQ] @ ''a'' @ [DQ] @ '': 1'' @ [LF] @ ''    }'' @ [LF]
          = line @ concat chunks
       \<and> length chunks = 4)"
proof -
  let ?lib = "stubLib [(extraLine, extraRecord)]"
  have a: "jsonParser ?lib extraLine = Some extraRecord"
    by (simp add: stubLib_def)
  have b: "isPinoLog extraRecord = Inr True" by (simp add: isPinoLog_def extraRecord_def)
  have c: "getProp extraRecord ''type'' \<noteq> JStr ''Error''" by (simp add: extraRecord_def)
  have d: "pretty ?lib defaultOptions extraLine
     = Inr (''[undefined] INFO: hello'' @ [LF] @ ''    extra: {'' @ [LF] @
            ''      '' @ [DQ] @ ''a'' @ [DQ] @ '': 1'' @ [LF] @ ''    }'' @ [LF])"
    by (simp add: extraRecord_def run_defs JSON_stringify_def quoteJSONString_def quoteChar_def
          gap_def LF_def CR_def DQ_def BSL_def)
  have t: "translate ?lib defaultOptions extraRecord = Inr extraRecord"
    by (simp add: translate_def defaultOptions_def)
  have o: "EOL defaultOptions = [LF]" "errorLikeObjectKeys defaultOptions = [''err'', ''error'']"
    "messageKey defaultOptions = ''msg''"
    by (simp_all add: EOL_def defaultOptions_def)
  note fe = field_exclusion [OF a b c d, unfolded Let_def o t]
  from fe have "filterStep [LF] [''err'', ''error'']
         ([''msg''] @ [''pid'', ''hostname'', ''name'', ''level'', ''time'', ''v''])
         (''level'', JNum 30) ''[undefined] INFO: hello''
       = (if fst (''level'', JNum 30) \<in> set [''err'', ''error'']
          then bindE (joinLinesWithIndentation [LF] (JSON_stringify (snd (''level'', JNum 30))))
                 (\<lambda>s. Inr (stackLoop (splitChar LF (IDENT @ fst (''level'', JNum 30) @ '': '' @ s @ [LF]))
                        0 ''[undefined] INFO: hello''))
          else Inr ''[undefined] INFO: hello'')"
    by simp
  then have r: "filterStep [LF] [''err'', ''error'']
         ([''msg''] @ [''pid'', ''hostname'', ''name'', ''level'', ''time'', ''v''])
         (''level'', JNum 30) ''[undefined] INFO: hello'' = Inr ''[undefined] INFO: hello''"
    by simp
  from fe obtain line kvs chunks where
    h: "header ?lib defaultOptions extraRecord = Inr line"
    and k: "extraRecord = JObj kvs"
    and e: "''[undefined] INFO: hello'' @ [LF] @ ''    extra: {'' @ [LF] @
            ''      '' @ [DQ] @ ''a'' @ [DQ] @ '': 1'' @ [LF] @ ''    }'' @ [LF]
          = line @ concat chunks"
    and l: "length kvs = length chunks"
    by (auto dest: list_all2_lengthD)
  from k l have "length chunks = 4" by (auto simp: extraRecord_def)
  with h e have "\<exists>line chunks.
         header ?lib defaultOptions extraRecord = Inr line
       \<and> ''[undefined] INFO: hello'' @ [LF] @ ''    extra: {'' @ [LF] @
            ''      '' @ [DQ] @ ''a'' @ [DQ] @ '': 1'' @ [LF] @ ''    }'' @ [LF]
          = line @ concat chunks
       \<and> length chunks = 4"
    by blast
  with a b c d r show ?thesis by (intro conjI)
qed

section \<open>C9: one terminated chunk per line\<close>

text \<open>
  A chunk that is returned is never empty and ends with a line feed; without \<^verbatim>\<open>crlf\<close> that
  is the configured terminator.
\<close>

lemma pretty_terminated:
  assumes "pretty lib opts inputLine = Inr out"
  shows "out \<noteq> [] \<and> last out = LF"
proof (cases "jsonParser lib inputLine")
  case None
  with assms show ?thesis by (auto simp: pretty_def EOL_last)
next
  case (Some parsed)
  show ?thesis
  proof (cases "isPinoLog parsed = Inr True")
    case False
    with Some assms show ?thesis
      by (auto simp: pretty_def bindE_eq_Inr EOL_last split: if_splits)
  next
    case True
    from assms obtain log line rest where "header lib opts log = Inr line"
      "body opts log [] = Inr rest" "out = line @ rest"
      unfolding pretty_recognized [OF Some True] by (auto simp: bindE_eq_Inr)
    then show ?thesis
      using header_last [of lib opts log line] body_last [of opts log rest]
      by (auto simp: last_append)
  qed
qed

lemma pretty_terminated_lf:
  assumes "pretty lib opts inputLine = Inr out" and "\<not> crlf opts"
  shows "\<exists>pre. out = pre @ EOL opts"
proof -
  from pretty_terminated [OF assms(1)] have "out = butlast out @ [LF]"
    by (metis append_butlast_last_id)
  with assms(2) show ?thesis by (auto simp: EOL_def)
qed

text \<open>
  C9. A line is not always answered by a chunk: on the record of an error without a
  stack, under the default configuration, \<^verbatim>\<open>pretty\<close> throws and returns nothing.
\<close>

theorem pretty_no_chunk:
  \<open>pretty (stubLib [(''{"v":1,"level":50,"type":"Error","msg":"boom"}'',
                     JObj [(''v'', JNum 1), (''level'', JNum 50), (''type'', JStr ''Error''),
                           (''msg'', JStr ''boom'')])])
      defaultOptions ''{"v":1,"level":50,"type":"Error","msg":"boom"}'' = Inl TypeError\<close>
  by (simp add: pretty_def stubLib_def isPinoLog_def translate_def defaultOptions_def header_def
        coloredLevel_def levels_def color_def nocolor_def identity_def message_def objectPrototype_def EOL_def
        body_def errorBranch_def numToString_def showNat.simps)

section \<open>C10: a record without a timestamp\<close>

text \<open>
  C10. For a recognized record that has no \<^verbatim>\<open>time\<close>, with \<^verbatim>\<open>translateTime\<close> off, the bracketed
  token is \<^verbatim>\<open>[undefined]\<close>, in its place before or after the level. The timestamp never
  aborts the rendering: \<^verbatim>\<open>pretty\<close> fails exactly when the level, the identity block, the
  message or the body fails, and returns the line built around \<^verbatim>\<open>[undefined]\<close> otherwise.
\<close>

theorem missing_time_undefined:
  assumes "jsonParser lib inputLine = Some parsed"
    and "isPinoLog parsed = Inr True"
    and "hasOwnProperty parsed ''time'' = Inr False"
    and "\<not> translateTime opts"
  shows "pretty lib opts inputLine =
     bindE (coloredLevel lib opts parsed) (\<lambda>level.
     bindE (identity parsed) (\<lambda>ident.
     bindE (message opts parsed) (\<lambda>msg.
     bindE (body opts parsed []) (\<lambda>rest.
       Inr ((if levelFirst opts then level @ '' [undefined]'' else ''[undefined] '' @ level)
            @ ident @ '': '' @ msg @ EOL opts @ rest)))))"
proof -
  from assms(2) obtain kvs where kvs: "parsed = JObj kvs" "''hasOwnProperty'' \<notin> set (map fst kvs)"
    using isPinoLog_True by blast
  with assms(3) have "''time'' \<notin> set (map fst kvs)" by simp
  then have "map_of kvs ''time'' = None" by (simp add: map_of_eq_None_iff)
  with kvs have t: "toString (getProp parsed ''time'') = Inr ''undefined''" by simp
  from assms(4) have tr: "translate lib opts parsed = Inr parsed" by (simp add: translate_def)
  show ?thesis
    unfolding pretty_recognized [OF assms(1,2)] header_def
    by (cases "levelFirst opts") (simp_all add: tr t bindE_assoc)
qed

theorem missing_time_undefined_witness:
  "jsonParser (stubLib [(noTimeLine, noTimeRecord)]) noTimeLine = Some noTimeRecord
   \<and> isPinoLog noTimeRecord = Inr True
   \<and> hasOwnProperty noTimeRecord ''time'' = Inr False
   \<and> \<not> translateTime defaultOptions
   \<and> pretty (stubLib [(noTimeLine, noTimeRecord)]) defaultOptions noTimeLine
       = Inr (''[undefined] INFO: hello'' @ [LF])"
proof -
  have a: "jsonParser (stubLib [(noTimeLine, noTimeRecord)]) noTimeLine = Some noTimeRecord"
    by (simp add: stubLib_def)
  have b: "isPinoLog noTimeRecord = Inr True" by (simp add: isPinoLog_def noTimeRecord_def)
  have c: "hasOwnProperty noTimeRecord ''time'' = Inr False" by (simp add: noTimeRecord_def)
  have d: "\<not> translateTime defaultOptions" by (simp add: defaultOptions_def)
  have "pretty (stubLib [(noTimeLine, noTimeRecord)]) defaultOptions noTimeLine
       = Inr (''[undefined] INFO: hello'' @ [LF])"
    unfolding missing_time_undefined [OF a b c d]
    by (simp add: noTimeRecord_def run_defs)
  with a b c d show ?thesis by simp
qed

end
